theory Spec2Isabelle
  imports Main
begin

section \<open>Python values: exceptions and naive datetimes\<close>

text \<open>
  The exceptions the bot can meet. \<open>CancelledError\<close> stands for the exceptions that derive
  from \<open>BaseException\<close> only (task cancellation, keyboard interrupt): an
  \<open>except Exception\<close> clause does not catch them.
\<close>

datatype exn =
    ZeroDivisionError
  | ValueError
  | OverflowError
  | ConflictingIdError
  | SchedulerAlreadyRunningError
  | SchedulerNotRunningError
  | Forbidden
  | HTTPException
  | RuntimeError
  | CancelledError

fun is_Exception :: "exn \<Rightarrow> bool" where
  "is_Exception CancelledError = False"
| "is_Exception _ = True"

text \<open>
  \<open>datetime.now(BUCHAREST_TZ)\<close> and every datetime derived from it by \<open>replace\<close> or by
  adding a timedelta carry the same tzinfo object, and Python compares and subtracts two
  such datetimes on their wall-clock fields alone. A datetime is therefore modelled by its
  seven fields.
\<close>

record datetime =
  year :: int
  month :: int
  day :: int
  hour :: int
  minute :: int
  second :: int
  microsecond :: int

definition is_leap :: "int \<Rightarrow> bool" where
  "is_leap y = (y mod 4 = 0 \<and> (y mod 100 \<noteq> 0 \<or> y mod 400 = 0))"

definition DAYS_IN_MONTH :: "int list" where
  "DAYS_IN_MONTH = [-1, 31, 28, 31, 30, 31, 30, 31, 31, 30, 31, 30, 31]"

definition DAYS_BEFORE_MONTH :: "int list" where
  "DAYS_BEFORE_MONTH = [-1, 0, 31, 59, 90, 120, 151, 181, 212, 243, 273, 304, 334]"

text \<open>Both tables are read at a month between 1 and 12 only: the month is checked first.\<close>

definition days_in_month :: "int \<Rightarrow> int \<Rightarrow> int" where
  "days_in_month y m = (if m = 2 \<and> is_leap y then 29 else DAYS_IN_MONTH ! nat m)"

definition days_before_year :: "int \<Rightarrow> int" where
  "days_before_year y = (y - 1) * 365 + (y - 1) div 4 - (y - 1) div 100 + (y - 1) div 400"

definition days_before_month :: "int \<Rightarrow> int \<Rightarrow> int" where
  "days_before_month y m = DAYS_BEFORE_MONTH ! nat m + (if m > 2 \<and> is_leap y then 1 else 0)"

definition ymd2ord :: "int \<Rightarrow> int \<Rightarrow> int \<Rightarrow> int" where
  "ymd2ord y m d = days_before_year y + days_before_month y m + d"

definition valid_datetime :: "datetime \<Rightarrow> bool" where
  "valid_datetime dt =
     (1 \<le> year dt \<and> year dt \<le> 9999 \<and> 1 \<le> month dt \<and> month dt \<le> 12 \<and>
      1 \<le> day dt \<and> day dt \<le> days_in_month (year dt) (month dt) \<and>
      0 \<le> hour dt \<and> hour dt \<le> 23 \<and> 0 \<le> minute dt \<and> minute dt \<le> 59 \<and>
      0 \<le> second dt \<and> second dt \<le> 59 \<and> 0 \<le> microsecond dt \<and> microsecond dt \<le> 999999)"

text \<open>
  \<open>dt.replace(...)\<close> builds a new datetime from the changed fields and raises
  \<open>ValueError\<close> when a field is out of range.
\<close>

definition datetime_new :: "datetime \<Rightarrow> exn + datetime" where
  "datetime_new dt = (if valid_datetime dt then Inr dt else Inl ValueError)"

text \<open>Comparison is lexicographic on the fields.\<close>

fun lex_le :: "int list \<Rightarrow> int list \<Rightarrow> bool" where
  "lex_le (x # xs) (y # ys) = (x < y \<or> (x = y \<and> lex_le xs ys))"
| "lex_le [] ys = True"
| "lex_le (x # xs) [] = False"

definition datetime_fields :: "datetime \<Rightarrow> int list" where
  "datetime_fields dt = [year dt, month dt, day dt, hour dt, minute dt, second dt, microsecond dt]"

definition datetime_le :: "datetime \<Rightarrow> datetime \<Rightarrow> bool" where
  "datetime_le a b = lex_le (datetime_fields a) (datetime_fields b)"

text \<open>
  The position of a datetime on the time line, in microseconds since the start of day 0
  of the proleptic Gregorian ordinal; \<open>a - b\<close> is the timedelta of \<open>sub_us a b\<close>
  microseconds.
\<close>

definition to_us :: "datetime \<Rightarrow> int" where
  "to_us dt =
     ((ymd2ord (year dt) (month dt) (day dt) * 86400
        + hour dt * 3600 + minute dt * 60 + second dt) * 1000000 + microsecond dt)"

definition sub_us :: "datetime \<Rightarrow> datetime \<Rightarrow> int" where
  "sub_us a b = to_us a - to_us b"

section \<open>config.py: the anchor time\<close>

definition START_TIME_hour :: int where
  "START_TIME_hour = 12"

definition START_TIME_minute :: int where
  "START_TIME_minute = 10"

section \<open>scheduler_manager.py: the first start time\<close>

text \<open>
  Lines 58 to 82 of \<open>_add_spawn_schedule\<close>. \<open>hours_passed\<close> is a float in the source:
  \<open>total_seconds() / 3600\<close>, floor-divided by \<open>interval_hours\<close>, which raises
  \<open>ZeroDivisionError\<close> at 0. Both datetimes lie on the same day, so the elapsed time is
  below 24 hours and known to the microsecond, far from the resolution of a double; the
  floor is computed here on the exact microseconds.
\<close>

definition first_start_datetime :: "int \<Rightarrow> datetime \<Rightarrow> exn + datetime" where
  "first_start_datetime interval_hours now_bucharest =
     (case datetime_new (now_bucharest\<lparr>hour := START_TIME_hour, minute := START_TIME_minute,
                                       second := 0, microsecond := 0\<rparr>) of
        Inl e \<Rightarrow> Inl e
      | Inr start_datetime \<Rightarrow>
          if datetime_le start_datetime now_bucharest then
            if interval_hours = 0 then Inl ZeroDivisionError
            else
              let intervals_passed =
                    sub_us now_bucharest start_datetime div (3600000000 * interval_hours) + 1;
                  h = START_TIME_hour + intervals_passed * interval_hours
              in (case datetime_new (start_datetime\<lparr>hour := h mod 24\<rparr>) of
                    Inl e \<Rightarrow> Inl e
                  | Inr start_datetime2 \<Rightarrow>
                      if h \<ge> 24 then
                        let days_to_add = h div 24
                        in datetime_new (start_datetime2\<lparr>day := day start_datetime2 + days_to_add,
                                                         hour := h mod 24\<rparr>)
                      else Inr start_datetime2)
          else Inr start_datetime)"

section \<open>Adding a timedelta\<close>







section \<open>config.py: the spawn configurations\<close>

record config =
  name :: string
  message :: string
  followup_message :: string
  interval_hours :: int
  job_id :: string
  followup_job_id :: string


section \<open>The scheduler library as the manager sees it\<close>

text \<open>
  An interval trigger keeps the interval in seconds and the start date; an interval of
  length zero is replaced by one second. Its occurrences are the start date and every
  whole number of intervals after it.
\<close>

record trigger =
  interval_length :: int
  start_date :: datetime



record job =
  j_args :: "string \<times> string"
  j_id :: string
  j_name :: string
  j_trigger :: trigger
  j_misfire_grace_time :: int
  j_coalesce :: bool
  j_max_instances :: int

record job_info =
  ji_id :: string
  ji_name :: string
  ji_next_run_time :: "datetime option"

text \<open>
  The manager calls four operations of the scheduler: \<open>add_job\<close>, \<open>start\<close>,
  \<open>shutdown(wait)\<close> and \<open>get_jobs\<close>. What they do is the library's business; each may
  raise. They are parameters of the manager's operations, over any scheduler state
  \<open>'s\<close>, and every theorem about the manager holds for every such library.
\<close>

record 's scheduler_lib =
  lib_add_job :: "'s \<Rightarrow> job \<Rightarrow> (exn + unit) \<times> 's"
  lib_start :: "'s \<Rightarrow> (exn + unit) \<times> 's"
  lib_shutdown :: "bool \<Rightarrow> 's \<Rightarrow> (exn + unit) \<times> 's"
  lib_get_jobs :: "'s \<Rightarrow> exn + job_info list"

section \<open>scheduler_manager.py: SpawnSchedulerManager\<close>

datatype level = INFO | WARNING | ERROR

datatype arg = AStr string | ANum int | ADate datetime | AExn exn

text \<open>A log record: the level, the text of the f-string and the values it formats.\<close>

type_synonym log_entry = "level \<times> string \<times> arg list"

record 's manager =
  scheduler :: 's
  is_running :: bool
  logs :: "log_entry list"

definition log :: "log_entry \<Rightarrow> 's manager \<Rightarrow> 's manager" where
  "log entry m = m\<lparr>logs := logs m @ [entry]\<rparr>"

text \<open>
  \<open>except Exception as e: logger.error(...); raise\<close>: an \<open>Exception\<close> is logged on its
  way out, anything else passes unlogged.
\<close>

definition log_and_raise :: "string \<Rightarrow> arg list \<Rightarrow> exn \<Rightarrow> 's manager \<Rightarrow> (exn + unit) \<times> 's manager" where
  "log_and_raise text args e m =
     (Inl e, if is_Exception e then log (ERROR, text, args @ [AExn e]) m else m)"







text \<open>\<open>_log_next_run_times\<close>: one line per job, and its own \<open>except Exception\<close>.\<close>

definition next_run_line :: "job_info \<Rightarrow> log_entry" where
  "next_run_line j =
     (case ji_next_run_time j of
        Some next_run \<Rightarrow> (INFO, ''  {job.name}: {next_run_bucharest}'', [AStr (ji_name j), ADate next_run])
      | None \<Rightarrow> (WARNING, ''  {job.name}: No next run time scheduled'', [AStr (ji_name j)]))"

definition log_next_run_times :: "'s scheduler_lib \<Rightarrow> 's manager \<Rightarrow> (exn + unit) \<times> 's manager" where
  "log_next_run_times lib m =
     (case lib_get_jobs lib (scheduler m) of
        Inl e \<Rightarrow>
          if is_Exception e
          then (Inr (), log (ERROR, ''Error logging next run times: {e}'', [AExn e]) m)
          else (Inl e, m)
      | Inr jobs \<Rightarrow>
          (Inr (), m\<lparr>logs := logs m @ (INFO, ''Next scheduled spawn notifications:'', [])
                                      # map next_run_line jobs\<rparr>))"

definition start :: "'s scheduler_lib \<Rightarrow> 's manager \<Rightarrow> (exn + unit) \<times> 's manager" where
  "start lib m =
     (if \<not> is_running m then
        (case lib_start lib (scheduler m) of
           (Inl e, s) \<Rightarrow> log_and_raise ''Failed to start scheduler: {e}'' [] e (m\<lparr>scheduler := s\<rparr>)
         | (Inr u, s) \<Rightarrow>
             (case log_next_run_times lib
                     (log (INFO, ''Spawn scheduler started successfully'', [])
                        (m\<lparr>scheduler := s, is_running := True\<rparr>)) of
                (Inl e, m') \<Rightarrow> log_and_raise ''Failed to start scheduler: {e}'' [] e m'
              | (Inr u', m') \<Rightarrow> (Inr (), m')))
      else (Inr (), m))"

definition stop :: "'s scheduler_lib \<Rightarrow> 's manager \<Rightarrow> (exn + unit) \<times> 's manager" where
  "stop lib m =
     (if is_running m then
        (case lib_shutdown lib True (scheduler m) of
           (Inl e, s) \<Rightarrow>
             if is_Exception e
             then (Inr (), log (ERROR, ''Error stopping scheduler: {e}'', [AExn e]) (m\<lparr>scheduler := s\<rparr>))
             else (Inl e, m\<lparr>scheduler := s\<rparr>)
         | (Inr u, s) \<Rightarrow>
             (Inr (), log (INFO, ''Spawn scheduler stopped'', []) (m\<lparr>scheduler := s, is_running := False\<rparr>)))
      else (Inr (), m))"

section \<open>bot.py: DiscordBot.send_spawn_message\<close>








section \<open>A reference scheduler\<close>

text \<open>
  One scheduler library to run the manager on: jobs added to a stopped scheduler wait in
  \<open>pending_jobs\<close> and enter the job store when the scheduler starts; the job store refuses
  an id it already holds; \<open>start\<close> on a running scheduler and \<open>shutdown\<close> on a stopped one
  raise. \<open>loops\<close> counts the timing loops that are active.
\<close>

datatype run_state = STATE_STOPPED | STATE_RUNNING

record ref_scheduler =
  run_state :: run_state
  pending_jobs :: "job list"
  jobstore :: "job list"
  loops :: nat

definition real_add_job :: "ref_scheduler \<Rightarrow> job \<Rightarrow> (exn + unit) \<times> ref_scheduler" where
  "real_add_job s j =
     (if j_id j \<in> set (map j_id (jobstore s)) then (Inl ConflictingIdError, s)
      else (Inr (), s\<lparr>jobstore := jobstore s @ [j]\<rparr>))"

definition ref_add_job :: "ref_scheduler \<Rightarrow> job \<Rightarrow> (exn + unit) \<times> ref_scheduler" where
  "ref_add_job s j =
     (if run_state s = STATE_STOPPED then (Inr (), s\<lparr>pending_jobs := pending_jobs s @ [j]\<rparr>)
      else real_add_job s j)"

fun add_pending :: "job list \<Rightarrow> ref_scheduler \<Rightarrow> (exn + unit) \<times> ref_scheduler" where
  "add_pending [] s = (Inr (), s)"
| "add_pending (j # js) s =
     (case real_add_job s j of
        (Inl e, s') \<Rightarrow> (Inl e, s')
      | (Inr u, s') \<Rightarrow> add_pending js s')"

definition ref_start :: "ref_scheduler \<Rightarrow> (exn + unit) \<times> ref_scheduler" where
  "ref_start s =
     (if run_state s \<noteq> STATE_STOPPED then (Inl SchedulerAlreadyRunningError, s)
      else (case add_pending (pending_jobs s) s of
              (Inl e, s') \<Rightarrow> (Inl e, s')
            | (Inr u, s') \<Rightarrow>
                (Inr (), s'\<lparr>run_state := STATE_RUNNING, pending_jobs := [], loops := loops s' + 1\<rparr>)))"

definition ref_shutdown :: "bool \<Rightarrow> ref_scheduler \<Rightarrow> (exn + unit) \<times> ref_scheduler" where
  "ref_shutdown wait s =
     (if run_state s = STATE_STOPPED then (Inl SchedulerNotRunningError, s)
      else (Inr (), s\<lparr>run_state := STATE_STOPPED, loops := loops s - 1\<rparr>))"

definition ref_get_jobs :: "ref_scheduler \<Rightarrow> exn + job_info list" where
  "ref_get_jobs s =
     Inr (map (\<lambda>j. \<lparr>ji_id = j_id j, ji_name = j_name j,
                     ji_next_run_time = Some (start_date (j_trigger j))\<rparr>)
            (if run_state s = STATE_STOPPED then pending_jobs s else jobstore s))"

definition ref_lib :: "ref_scheduler scheduler_lib" where
  "ref_lib = \<lparr>lib_add_job = ref_add_job, lib_start = ref_start,
              lib_shutdown = ref_shutdown, lib_get_jobs = ref_get_jobs\<rparr>"

definition new_manager :: "ref_scheduler manager" where
  "new_manager =
     \<lparr>scheduler = \<lparr>run_state = STATE_STOPPED, pending_jobs = [], jobstore = [], loops = 0\<rparr>,
      is_running = False, logs = []\<rparr>"


section \<open>The first start time: lemmas\<close>





text \<open>
  What lines 58 to 82 compute, for every valid \<open>now\<close> and every interval of at least
  one hour. With \<open>a\<close> today's anchor and \<open>k\<close> the number of periods the source adds
  (none before the anchor), the day the source asks \<open>replace\<close> for is
  \<open>day now + (12 + k * interval_hours) div 24\<close>. When that day exists in the month of
  \<open>now\<close>, the result is the grid point \<open>a + k * interval_hours\<close> hours, it is later than
  \<open>now\<close>, and no grid point with a smaller \<open>k \<ge> 0\<close> is. When it does not, the
  source raises \<open>ValueError\<close>.
\<close>

lemma anchor_valid:
  assumes "valid_datetime now"
  shows "datetime_new (now\<lparr>hour := START_TIME_hour, minute := START_TIME_minute,
                            second := 0, microsecond := 0\<rparr>)
           = Inr (now\<lparr>hour := START_TIME_hour, minute := START_TIME_minute,
                            second := 0, microsecond := 0\<rparr>)"
  using assms
  by (simp add: datetime_new_def valid_datetime_def START_TIME_hour_def START_TIME_minute_def)

lemma elapsed_since_anchor:
  "sub_us now (now\<lparr>hour := START_TIME_hour, minute := START_TIME_minute, second := 0, microsecond := 0\<rparr>)
     = (hour now - 12) * 3600000000 + (minute now - 10) * 60000000 + second now * 1000000 + microsecond now"
  by (simp add: sub_us_def to_us_def START_TIME_hour_def START_TIME_minute_def algebra_simps)

lemma anchor_le_iff:
  assumes v: "valid_datetime now"
  shows "datetime_le (now\<lparr>hour := START_TIME_hour, minute := START_TIME_minute, second := 0, microsecond := 0\<rparr>) now
           \<longleftrightarrow> 0 \<le> sub_us now (now\<lparr>hour := START_TIME_hour, minute := START_TIME_minute, second := 0, microsecond := 0\<rparr>)"
proof -
  define h where "h = hour now"
  define mi where "mi = minute now"
  define s where "s = second now"
  define us where "us = microsecond now"
  have b: "0 \<le> h" "h \<le> 23" "0 \<le> mi" "mi \<le> 59" "0 \<le> s" "s \<le> 59" "0 \<le> us" "us \<le> 999999"
    using v by (simp_all add: valid_datetime_def h_def mi_def s_def us_def)
  have l: "datetime_le (now\<lparr>hour := START_TIME_hour, minute := START_TIME_minute, second := 0, microsecond := 0\<rparr>) now
        \<longleftrightarrow> (12 < h \<or> (12 = h \<and> (10 < mi \<or> 10 = mi)))"
    using b by (auto simp: datetime_le_def datetime_fields_def START_TIME_hour_def START_TIME_minute_def
        h_def mi_def s_def us_def)
  have e: "sub_us now (now\<lparr>hour := START_TIME_hour, minute := START_TIME_minute, second := 0, microsecond := 0\<rparr>)
        = (h - 12) * 3600000000 + (mi - 10) * 60000000 + s * 1000000 + us"
    unfolding elapsed_since_anchor h_def mi_def s_def us_def ..
  have "(12 < h \<or> (12 = h \<and> (10 < mi \<or> 10 = mi)))
        \<longleftrightarrow> 0 \<le> (h - 12) * 3600000000 + (mi - 10) * 60000000 + s * 1000000 + us"
  proof (cases "12 < h")
    case True
    then have "0 \<le> (h - 12) * 3600000000 + (mi - 10) * 60000000 + s * 1000000 + us"
      using b by (simp add: algebra_simps)
    then show ?thesis using True by simp
  next
    case False
    show ?thesis
    proof (cases "h = 12")
      case True
      show ?thesis
      proof (cases "10 \<le> mi")
        case True
        then have "0 \<le> (h - 12) * 3600000000 + (mi - 10) * 60000000 + s * 1000000 + us"
          using b \<open>h = 12\<close> by (simp add: algebra_simps)
        then show ?thesis using True \<open>h = 12\<close> by auto
      next
        case False
        then have "(h - 12) * 3600000000 + (mi - 10) * 60000000 + s * 1000000 + us < 0"
          using b \<open>h = 12\<close> by (simp add: algebra_simps)
        then show ?thesis using False \<open>h = 12\<close> by auto
      qed
    next
      case F2: False
      then have "h \<le> 11" using False by simp
      then have "(h - 12) * 3600000000 + (mi - 10) * 60000000 + s * 1000000 + us < 0"
        using b by (simp add: algebra_simps)
      then show ?thesis using False F2 by auto
    qed
  qed
  then show ?thesis using l e by simp
qed

lemma floor_grid:
  fixes e D :: int
  assumes D: "0 < D" and e: "0 \<le> e"
  shows "e < (e div D + 1) * D" and "0 \<le> e div D + 1"
    and "\<And>j. e < j * D \<Longrightarrow> e div D + 1 \<le> j"
proof -
  have m: "e = e div D * D + e mod D" "0 \<le> e mod D" "e mod D < D" using D by simp_all
  have x: "(e div D + 1) * D = e div D * D + D" by (simp add: algebra_simps)
  show "e < (e div D + 1) * D" unfolding x using m by linarith
  show "0 \<le> e div D + 1" using D e by (simp add: pos_imp_zdiv_nonneg_iff)
  show "e div D + 1 \<le> j" if "e < j * D" for j
  proof (rule ccontr)
    assume "\<not> e div D + 1 \<le> j"
    then have "j \<le> e div D" by simp
    then have "j * D \<le> e div D * D" using D by (simp add: mult_right_mono)
    then show False using that m by linarith
  qed
qed

lemma first_start_before_anchor:
  assumes v: "valid_datetime now"
    and lt: "sub_us now (now\<lparr>hour := START_TIME_hour, minute := START_TIME_minute, second := 0, microsecond := 0\<rparr>) < 0"
  shows "first_start_datetime ih now
           = Inr (now\<lparr>hour := START_TIME_hour, minute := START_TIME_minute, second := 0, microsecond := 0\<rparr>)"
  unfolding first_start_datetime_def anchor_valid [OF v]
  using anchor_le_iff [OF v] lt by simp

lemma first_start_after_anchor:
  assumes v: "valid_datetime now" and ih: "1 \<le> ih"
    and ge: "0 \<le> sub_us now (now\<lparr>hour := START_TIME_hour, minute := START_TIME_minute, second := 0, microsecond := 0\<rparr>)"
  defines "k \<equiv> sub_us now (now\<lparr>hour := START_TIME_hour, minute := START_TIME_minute, second := 0, microsecond := 0\<rparr>)
                   div (3600000000 * ih) + 1"
  shows "first_start_datetime ih now
           = (if 12 + k * ih < 24 then Inr (now\<lparr>hour := 12 + k * ih, minute := 10, second := 0, microsecond := 0\<rparr>)
              else datetime_new (now\<lparr>day := day now + (12 + k * ih) div 24, hour := (12 + k * ih) mod 24,
                                      minute := 10, second := 0, microsecond := 0\<rparr>))"
proof -
  let ?a = "now\<lparr>hour := START_TIME_hour, minute := START_TIME_minute, second := 0, microsecond := 0\<rparr>"
  have le: "datetime_le ?a now" using anchor_le_iff [OF v] ge by simp
  have k1: "1 \<le> k" unfolding k_def using ge ih by (simp add: pos_imp_zdiv_nonneg_iff)
  have "1 * 1 \<le> k * ih" using k1 ih by (intro mult_mono) simp_all
  then have h0: "0 \<le> 12 + k * ih" by simp
  have m0: "0 \<le> (12 + k * ih) mod 24" "(12 + k * ih) mod 24 \<le> 23"
    using pos_mod_bound [of 24 "12 + k * ih"] by simp_all
  have n1: "datetime_new (?a\<lparr>hour := (12 + k * ih) mod 24\<rparr>) = Inr (?a\<lparr>hour := (12 + k * ih) mod 24\<rparr>)"
    using v m0 by (simp add: datetime_new_def valid_datetime_def START_TIME_minute_def)
  have small: "(12 + k * ih) mod 24 = 12 + k * ih" if "12 + k * ih < 24"
    using that h0 by simp
  have ih0: "ih \<noteq> 0" using ih by simp
  have req: "\<And>d h. now\<lparr>minute := 10, second := 0, microsecond := 0, day := d, hour := h\<rparr>
                     = now\<lparr>day := d, hour := h, minute := 10, second := 0, microsecond := 0\<rparr>"
    by (cases now) simp
  have keq: "sub_us now (now\<lparr>hour := 12, minute := 10, second := 0, microsecond := 0\<rparr>)
               div (3600000000 * ih) + 1 = k"
    unfolding k_def START_TIME_hour_def START_TIME_minute_def ..
  show ?thesis
    unfolding first_start_datetime_def anchor_valid [OF v]
    using le ih0 n1 small
    by (simp add: Let_def START_TIME_hour_def START_TIME_minute_def keq req)
qed

lemma first_start_on_grid:
  assumes v: "valid_datetime now" and ih: "1 \<le> ih"
  defines "a \<equiv> now\<lparr>hour := START_TIME_hour, minute := START_TIME_minute, second := 0, microsecond := 0\<rparr>"
  defines "k \<equiv> (if 0 \<le> sub_us now a then sub_us now a div (3600000000 * ih) + 1 else 0)"
  shows "(day now + (12 + k * ih) div 24 \<le> days_in_month (year now) (month now) \<longrightarrow>
            (\<exists>r. first_start_datetime ih now = Inr r \<and>
                 to_us r = to_us a + k * (ih * 3600000000) \<and>
                 to_us now < to_us r \<and> 0 \<le> k \<and>
                 (\<forall>j. 0 \<le> j \<and> to_us now < to_us a + j * (ih * 3600000000) \<longrightarrow> k \<le> j))) \<and>
         (\<not> day now + (12 + k * ih) div 24 \<le> days_in_month (year now) (month now) \<longrightarrow>
            first_start_datetime ih now = Inl ValueError)"
proof (cases "0 \<le> sub_us now a")
  case False
  then have k0: "k = 0" by (simp add: k_def)
  have lt: "sub_us now a < 0" using False by simp
  have r: "first_start_datetime ih now = Inr a"
    unfolding a_def using first_start_before_anchor [OF v] lt unfolding a_def by simp
  have d: "day now \<le> days_in_month (year now) (month now)" using v by (simp add: valid_datetime_def)
  have "to_us now < to_us a" using lt by (simp add: sub_us_def)
  then show ?thesis using r k0 d by simp
next
  case True
  define D where "D = 3600000000 * ih"
  have D: "0 < D" unfolding D_def using ih by simp
  define e where "e = sub_us now a"
  have e0: "0 \<le> e" using True by (simp add: e_def)
  have k: "k = e div D + 1" using True by (simp add: k_def e_def D_def)
  note fg = floor_grid [OF D e0]
  define H where "H = 12 + k * ih"
  have k1: "1 \<le> k" unfolding k using D e0 by (simp add: pos_imp_zdiv_nonneg_iff)
  have "1 * 1 \<le> k * ih" using k1 ih by (intro mult_mono) simp_all
  then have H13: "13 \<le> H" by (simp add: H_def)
  have q0: "0 \<le> H div 24" using H13 by (simp add: pos_imp_zdiv_nonneg_iff)
  have m0: "0 \<le> H mod 24" "H mod 24 \<le> 23" using pos_mod_bound [of 24 H] by simp_all
  have split: "H = H div 24 * 24 + H mod 24" by simp
  have kD: "k * (ih * 3600000000) = (H - 12) * 3600000000" by (simp add: H_def)
  have Deq: "ih * 3600000000 = D" by (simp add: D_def)
  have now_lt: "to_us now < to_us a + k * (ih * 3600000000)"
  proof -
    have "e < k * D" using fg(1) by (simp add: k)
    then show ?thesis unfolding Deq e_def sub_us_def by linarith
  qed
  have minimal: "\<forall>j. 0 \<le> j \<and> to_us now < to_us a + j * (ih * 3600000000) \<longrightarrow> k \<le> j"
  proof (intro allI impI)
    fix j assume j: "0 \<le> j \<and> to_us now < to_us a + j * (ih * 3600000000)"
    then have "to_us now < to_us a + j * D" unfolding Deq by simp
    then have "e < j * D" unfolding e_def sub_us_def by linarith
    then show "k \<le> j" using fg(3) by (simp add: k)
  qed
  have ge: "0 \<le> sub_us now (now\<lparr>hour := START_TIME_hour, minute := START_TIME_minute, second := 0, microsecond := 0\<rparr>)"
    using True by (simp add: a_def)
  have kk: "sub_us now (now\<lparr>hour := START_TIME_hour, minute := START_TIME_minute, second := 0, microsecond := 0\<rparr>)
               div (3600000000 * ih) + 1 = k"
    using True by (simp add: k_def a_def)
  have res: "first_start_datetime ih now
           = (if H < 24 then Inr (now\<lparr>hour := H, minute := 10, second := 0, microsecond := 0\<rparr>)
              else datetime_new (now\<lparr>day := day now + H div 24, hour := H mod 24,
                                      minute := 10, second := 0, microsecond := 0\<rparr>))"
    using first_start_after_anchor [OF v ih ge] unfolding kk H_def .
  have ta: "to_us a = (ymd2ord (year now) (month now) (day now) * 86400 + 12 * 3600 + 10 * 60) * 1000000"
    by (simp add: a_def to_us_def START_TIME_hour_def START_TIME_minute_def)
  show ?thesis
  proof (cases "H < 24")
    case small: True
    let ?r = "now\<lparr>hour := H, minute := 10, second := 0, microsecond := 0\<rparr>"
    have q: "H div 24 = 0" using small H13 by simp
    have "to_us ?r = to_us a + k * (ih * 3600000000)"
      unfolding kD ta by (simp add: to_us_def algebra_simps)
    moreover have "first_start_datetime ih now = Inr ?r" using res small by simp
    moreover have "day now \<le> days_in_month (year now) (month now)" using v by (simp add: valid_datetime_def)
    ultimately show ?thesis using now_lt minimal k1 q unfolding H_def [symmetric] by auto
  next
    case big: False
    let ?r = "now\<lparr>day := day now + H div 24, hour := H mod 24, minute := 10, second := 0, microsecond := 0\<rparr>"
    have q1: "1 \<le> H div 24" using big by simp
    have tr: "to_us ?r = to_us a + k * (ih * 3600000000)"
    proof -
      define q where "q = H div 24"
      define m where "m = H mod 24"
      have "H = q * 24 + m" unfolding q_def m_def by simp
      then have "to_us (now\<lparr>day := day now + q, hour := m, minute := 10, second := 0, microsecond := 0\<rparr>)
                   = to_us a + (H - 12) * 3600000000"
        unfolding ta by (simp add: to_us_def ymd2ord_def algebra_simps)
      then show ?thesis unfolding kD q_def m_def .
    qed
    show ?thesis
    proof (cases "day now + H div 24 \<le> days_in_month (year now) (month now)")
      case True
      have "valid_datetime ?r" using v True q0 m0 by (simp add: valid_datetime_def)
      then have "first_start_datetime ih now = Inr ?r" using res big by (simp add: datetime_new_def)
      then show ?thesis using tr now_lt minimal k1 True unfolding H_def [symmetric] by auto
    next
      case False
      then have "\<not> valid_datetime ?r" by (simp add: valid_datetime_def)
      then have "first_start_datetime ih now = Inl ValueError" using res big by (simp add: datetime_new_def)
      then show ?thesis using False unfolding H_def [symmetric] by simp
    qed
  qed
qed

section \<open>The first start time: claims\<close>



text \<open>
  Claim C1. The day rollover of lines 76 to 82 adds \<open>days_to_add\<close> to the day of the
  month and hands the sum to \<open>replace\<close>. On 31 January 2025 at 23:00 with an interval of
  2 hours, five periods after the anchor (22:10) have passed and the sixth grid point,
  1 February 00:10, is the smallest one after \<open>now\<close>; the source asks for day 32 of
  January and \<open>replace\<close> raises \<open>ValueError\<close>: no first start time is returned.
\<close>

theorem first_start_raises_at_month_end:
  "first_start_datetime 2
     \<lparr>year = 2025, month = 1, day = 31, hour = 23, minute = 0, second = 0, microsecond = 0\<rparr>
     = Inl ValueError \<and>
   to_us \<lparr>year = 2025, month = 1, day = 31, hour = 12, minute = 10, second = 0, microsecond = 0\<rparr>
       + 5 * (2 * 3600000000)
     \<le> to_us \<lparr>year = 2025, month = 1, day = 31, hour = 23, minute = 0, second = 0, microsecond = 0\<rparr> \<and>
   to_us \<lparr>year = 2025, month = 1, day = 31, hour = 23, minute = 0, second = 0, microsecond = 0\<rparr>
     < to_us \<lparr>year = 2025, month = 2, day = 1, hour = 0, minute = 10, second = 0, microsecond = 0\<rparr> \<and>
   to_us \<lparr>year = 2025, month = 2, day = 1, hour = 0, minute = 10, second = 0, microsecond = 0\<rparr>
     = to_us \<lparr>year = 2025, month = 1, day = 31, hour = 12, minute = 10, second = 0, microsecond = 0\<rparr>
         + 6 * (2 * 3600000000)"
  by (simp add: first_start_datetime_def datetime_new_def valid_datetime_def days_in_month_def
      DAYS_IN_MONTH_def is_leap_def datetime_le_def datetime_fields_def sub_us_def to_us_def ymd2ord_def
      days_before_year_def days_before_month_def DAYS_BEFORE_MONTH_def START_TIME_hour_def
      START_TIME_minute_def Let_def)

section \<open>Dates and the follow-up start time: lemmas\<close>










lemma start_success_running:
  assumes "start lib m = (Inr (), m')"
  shows "is_running m'"
proof (cases "is_running m")
  case True
  then show ?thesis using assms by (simp add: start_def)
next
  case False
  obtain r s where ls: "lib_start lib (scheduler m) = (r, s)" by (cases "lib_start lib (scheduler m)")
  show ?thesis
  proof (cases r)
    case (Inl e)
    then show ?thesis using assms False ls by (simp add: start_def log_and_raise_def)
  next
    case (Inr u)
    let ?m1 = "log (INFO, ''Spawn scheduler started successfully'', []) (m\<lparr>scheduler := s, is_running := True\<rparr>)"
    have "snd (log_next_run_times lib ?m1) = m'" "fst (log_next_run_times lib ?m1) = Inr ()"
      using assms False ls Inr
      by (auto simp: start_def log_and_raise_def split: prod.splits sum.splits)
    moreover have "is_running (snd (log_next_run_times lib ?m1))"
      by (simp add: log_next_run_times_def log_def split: sum.splits)
    ultimately show ?thesis by simp
  qed
qed


section \<open>Registration, dispatch and the manager's life cycle: claims\<close>





text \<open>
  Claim C8. \<open>start\<close> on a running manager returns normally and changes nothing, so a
  second \<open>start\<close> right after a successful one changes nothing either and the scheduler
  is not started again; \<open>stop\<close> on a stopped manager returns normally and changes
  nothing, also right after a \<open>stop\<close> that left the manager stopped.
\<close>

theorem start_stop_idempotent:
  "(is_running m \<longrightarrow> start lib m = (Inr (), m)) \<and>
   (start lib m = (Inr (), m') \<longrightarrow> start lib m' = (Inr (), m')) \<and>
   (\<not> is_running m \<longrightarrow> stop lib m = (Inr (), m)) \<and>
   (stop lib m = (r, m') \<and> \<not> is_running m' \<longrightarrow> stop lib m' = (Inr (), m'))"
proof (intro conjI impI)
  show "start lib m = (Inr (), m)" if "is_running m" using that by (simp add: start_def)
  show "start lib m' = (Inr (), m')" if "start lib m = (Inr (), m')"
    using start_success_running [OF that] by (simp add: start_def)
  show "stop lib m = (Inr (), m)" if "\<not> is_running m" using that by (simp add: stop_def)
  show "stop lib m' = (Inr (), m')" if "stop lib m = (r, m') \<and> \<not> is_running m'"
    using that by (simp add: stop_def)
qed

theorem start_stop_idempotent_witness:
  "fst (start ref_lib new_manager) = Inr () \<and>
   start ref_lib (snd (start ref_lib new_manager)) = (Inr (), snd (start ref_lib new_manager)) \<and>
   loops (scheduler (snd (start ref_lib (snd (start ref_lib new_manager))))) = 1 \<and>
   stop ref_lib new_manager = (Inr (), new_manager)"
proof -
  let ?m1 = "snd (start ref_lib new_manager)"
  have f: "fst (start ref_lib new_manager) = Inr ()"
    by (simp add: start_def new_manager_def ref_lib_def ref_start_def log_next_run_times_def
        ref_get_jobs_def log_def)
  then have s: "start ref_lib new_manager = (Inr (), ?m1)" by (metis prod.collapse)
  have l: "loops (scheduler ?m1) = 1"
    by (simp add: start_def new_manager_def ref_lib_def ref_start_def log_next_run_times_def
        ref_get_jobs_def log_def)
  have n: "\<not> is_running new_manager" by (simp add: new_manager_def)
  have "start ref_lib ?m1 = (Inr (), ?m1)" "stop ref_lib new_manager = (Inr (), new_manager)"
    using start_stop_idempotent [of new_manager ref_lib ?m1] s n by simp_all
  then show ?thesis using f l by simp
qed




section \<open>The bot's send operation: claims\<close>



end
